theory Spec2Isabelle
  imports Main
begin

section \<open>JavaScript values and plain objects\<close>

text \<open>
  The table facade (\<^verbatim>\<open>DynamoTable\<close>) works on loosely typed JavaScript values. A value is
  modelled as a tree. Numbers are the integers and \<open>JNaN\<close> (no other floating point); a plain
  object is the list of its own enumerable properties in iteration order; \<open>JSet\<close> is the
  document client's set wrapper, whose elements are in its \<^verbatim>\<open>values\<close> field; \<open>JFun\<close> is a
  function, known by its name only.
\<close>

datatype jsval =
    JUndefined
  | JNull
  | JBool bool
  | JNum int
  | JNaN
  | JStr string
  | JArr "jsval list"
  | JSet "jsval list"
  | JObj "(string \<times> jsval) list"
  | JFun string

type_synonym jsobj = "(string \<times> jsval) list"

text \<open>
  What \<^verbatim>\<open>if (v)\<close> and \<^verbatim>\<open>!v\<close> test: the falsy values are \<^verbatim>\<open>undefined\<close>, \<^verbatim>\<open>null\<close>,
  \<^verbatim>\<open>false\<close>, 0, NaN and the empty string; every array, object and function is truthy.
\<close>

fun truthy :: "jsval \<Rightarrow> bool" where
  "truthy JUndefined = False"
| "truthy JNull = False"
| "truthy (JBool b) = b"
| "truthy (JNum n) = (n \<noteq> 0)"
| "truthy JNaN = False"
| "truthy (JStr s) = (s \<noteq> [])"
| "truthy (JArr vs) = True"
| "truthy (JSet vs) = True"
| "truthy (JObj ps) = True"
| "truthy (JFun f) = True"

text \<open>\<^verbatim>\<open>v.constructor === Array\<close>, for a value that has a constructor.\<close>

fun is_Array :: "jsval \<Rightarrow> bool" where
  "is_Array (JArr vs) = True"
| "is_Array v = False"

text \<open>
  A plain object inherits from \<^verbatim>\<open>Object.prototype\<close>: reading a name it does not hold
  itself gives the prototype's member of that name, a function, and for \<^verbatim>\<open>__proto__\<close> the
  prototype, an object without enumerable properties.
\<close>

definition object_prototype :: "string list" where
  "object_prototype =
     [''constructor'', ''toString'', ''toLocaleString'', ''valueOf'', ''hasOwnProperty'',
      ''isPrototypeOf'', ''propertyIsEnumerable'', ''__defineGetter__'', ''__defineSetter__'',
      ''__lookupGetter__'', ''__lookupSetter__'']"

definition inherited :: "string \<Rightarrow> jsval" where
  "inherited k =
     (if k \<in> set object_prototype then JFun k
      else if k = ''__proto__'' then JObj []
      else JUndefined)"

text \<open>
  \<open>obj_get\<close> is the own-property lookup (\<open>None\<close>: no such property), as \<^verbatim>\<open>hasOwnProperty\<close>
  and a loop over the object see it; \<open>js_get\<close> is the expression \<^verbatim>\<open>o[k]\<close>, which reads an
  inherited member where the object has no property of its own, and \<^verbatim>\<open>undefined\<close> where
  there is neither.
\<close>

definition obj_get :: "(string \<times> 'v) list \<Rightarrow> string \<Rightarrow> 'v option" where
  "obj_get ps k = map_of ps k"

definition js_get :: "jsobj \<Rightarrow> string \<Rightarrow> jsval" where
  "js_get ps k = (case map_of ps k of None \<Rightarrow> inherited k | Some v \<Rightarrow> v)"

text \<open>
  \<^verbatim>\<open>o[k] = v\<close>: an existing property keeps its place, a new one goes last. (Property
  names that are array indices, which JavaScript iterates first, are not told apart, and an
  assignment under the name \<^verbatim>\<open>__proto__\<close>, which sets no property, is not modelled: the
  names the code assigns are placeholders, the suffixed sort key and key attributes, taken to
  differ from it.)
\<close>

fun obj_set :: "(string \<times> 'v) list \<Rightarrow> string \<Rightarrow> 'v \<Rightarrow> (string \<times> 'v) list" where
  "obj_set [] k v = [(k, v)]"
| "obj_set ((k', v') # ps) k v = (if k' = k then (k, v) # ps else (k', v') # obj_set ps k v)"

text \<open>\<^verbatim>\<open>delete o[k]\<close>.\<close>

definition obj_delete :: "(string \<times> 'v) list \<Rightarrow> string \<Rightarrow> (string \<times> 'v) list" where
  "obj_delete ps k = filter (\<lambda>p. fst p \<noteq> k) ps"

text \<open>Index access \<^verbatim>\<open>values[i]\<close> of an array: \<^verbatim>\<open>undefined\<close> past the end.\<close>

definition js_nth :: "jsval list \<Rightarrow> nat \<Rightarrow> jsval" where
  "js_nth vs i = (if i < length vs then vs ! i else JUndefined)"

section \<open>Table descriptions\<close>

datatype KeyType = HASH | RANGE

record KeySchemaElement =
  AttributeName :: string
  KeyType :: KeyType

record IndexDesc =
  IndexName :: string
  IndexKeySchema :: "KeySchemaElement list"

record TableDesc =
  TableName :: string
  KeySchema :: "KeySchemaElement list"
  LocalSecondaryIndexes :: "IndexDesc list option"
  GlobalSecondaryIndexes :: "IndexDesc list option"
  ItemCount :: int

datatype error =
    TypeError
  | InvalidKeySchema
  | MissingPartitionKey string
  | InvalidObject
  | ConstructorError string
  | StoreError string

text \<open>
  The fields the constructor of \<^verbatim>\<open>DynamoTable\<close> sets. \<open>sortKey\<close> is \<^verbatim>\<open>null\<close> (\<open>None\<close>)
  for a table without a RANGE key. \<open>objectConstructor\<close> is the caller's item factory, which
  may throw; its type is a parameter, since it acts on item trees where items are read and on
  the object store where an item is written. \<open>constructOnGet\<close> is the option of the same name.
\<close>

record 'c DynamoTable =
  tableName :: string
  partitionKey :: string
  sortKey :: "string option"
  itemCount :: int
  tableDesc :: TableDesc
  objectConstructor :: "'c option"
  constructOnGet :: bool

definition is_hash :: "KeySchemaElement \<Rightarrow> bool" where
  "is_hash k = (KeyType k = HASH)"

definition is_range :: "KeySchemaElement \<Rightarrow> bool" where
  "is_range k = (KeyType k = RANGE)"

text \<open>
  The constructor: \<^verbatim>\<open>R.find(k => k.KeyType === 'HASH', ...).AttributeName\<close> is a TypeError
  when the schema has no HASH key.
\<close>

definition newDynamoTable ::
  "TableDesc \<Rightarrow> 'c option \<Rightarrow> bool \<Rightarrow> error + 'c DynamoTable" where
  "newDynamoTable td ctor onGet =
     (case find is_hash (KeySchema td) of
        None \<Rightarrow> Inl TypeError
      | Some pk \<Rightarrow>
          Inr \<lparr> tableName = TableName td,
                partitionKey = AttributeName pk,
                sortKey = map_option AttributeName (find is_range (KeySchema td)),
                itemCount = ItemCount td,
                tableDesc = td,
                objectConstructor = ctor,
                constructOnGet = onGet \<rparr>)"

section \<open>Index selection in query\<close>

text \<open>
  \<^verbatim>\<open>fitsParamsExactly\<close>: every key of the schema is bound to a truthy value that is not an
  array.
\<close>

fun fitsParamsExactly :: "jsobj \<Rightarrow> KeySchemaElement list \<Rightarrow> bool" where
  "fitsParamsExactly kvp [] = True"
| "fitsParamsExactly kvp (key # rest) =
     (if \<not> truthy (js_get kvp (AttributeName key)) \<or> is_Array (js_get kvp (AttributeName key))
      then False
      else fitsParamsExactly kvp rest)"

text \<open>The first index of a list whose key schema fits exactly (each search ends with \<^verbatim>\<open>break\<close>).\<close>

fun first_exact :: "jsobj \<Rightarrow> IndexDesc list \<Rightarrow> IndexDesc option" where
  "first_exact kvp [] = None"
| "first_exact kvp (index # rest) =
     (if fitsParamsExactly kvp (IndexKeySchema index) then Some index else first_exact kvp rest)"

text \<open>
  The second loop over the global indexes: the first one whose HASH key is bound to a truthy
  value. An index without a HASH key makes \<^verbatim>\<open>pk.AttributeName\<close> a TypeError.
\<close>

fun first_partial :: "jsobj \<Rightarrow> IndexDesc list \<Rightarrow> error + IndexDesc option" where
  "first_partial kvp [] = Inr None"
| "first_partial kvp (index # rest) =
     (case find is_hash (IndexKeySchema index) of
        None \<Rightarrow> Inl TypeError
      | Some pk \<Rightarrow>
          if truthy (js_get kvp (AttributeName pk)) then Inr (Some index)
          else first_partial kvp rest)"

text \<open>
  The state of the selection: \<open>matchingKeySchema\<close> (\<open>None\<close>: still \<^verbatim>\<open>undefined\<close>) and
  \<^verbatim>\<open>queryParams.IndexName\<close>.
\<close>

record selection =
  matchingKeySchema :: "KeySchemaElement list option"
  selIndexName :: "string option"

definition use_index :: "IndexDesc \<Rightarrow> selection" where
  "use_index index =
     \<lparr> matchingKeySchema = Some (IndexKeySchema index), selIndexName = Some (IndexName index) \<rparr>"

definition use_table :: "'c DynamoTable \<Rightarrow> selection" where
  "use_table t = \<lparr> matchingKeySchema = Some (KeySchema (tableDesc t)), selIndexName = None \<rparr>"

definition no_selection :: selection where
  "no_selection = \<lparr> matchingKeySchema = None, selIndexName = None \<rparr>"

text \<open>
  The block under \<^verbatim>\<open>if (partitionKeyValue)\<close>: the table's own schema, replaced by the first
  local index that fits exactly. The second component is \<^verbatim>\<open>lsiFound\<close>.
\<close>

definition select_local :: "'c DynamoTable \<Rightarrow> jsobj \<Rightarrow> selection \<times> bool" where
  "select_local t kvp =
     (if truthy (js_get kvp (partitionKey t)) then
        (case LocalSecondaryIndexes (tableDesc t) of
           None \<Rightarrow> (use_table t, False)
         | Some lsis \<Rightarrow>
             (case first_exact kvp lsis of
                Some index \<Rightarrow> (use_index index, True)
              | None \<Rightarrow> (use_table t, False)))
      else (no_selection, False))"

text \<open>The block under \<^verbatim>\<open>if (!lsiFound)\<close>, up to the test that falls back to a scan.\<close>

definition select_global :: "'c DynamoTable \<Rightarrow> jsobj \<Rightarrow> selection \<Rightarrow> error + selection" where
  "select_global t kvp sel =
     (case GlobalSecondaryIndexes (tableDesc t) of
        None \<Rightarrow> Inr sel
      | Some gsis \<Rightarrow>
          (case first_exact kvp gsis of
             Some index \<Rightarrow> Inr (use_index index)
           | None \<Rightarrow>
               if matchingKeySchema sel = None then
                 (case first_partial kvp gsis of
                    Inl e \<Rightarrow> Inl e
                  | Inr None \<Rightarrow> Inr sel
                  | Inr (Some index) \<Rightarrow> Inr (use_index index))
               else Inr sel))"

text \<open>
  The whole selection. A result whose \<open>matchingKeySchema\<close> is \<open>None\<close> is the fall-back to
  \<^verbatim>\<open>scan\<close>.
\<close>

definition select_schema :: "'c DynamoTable \<Rightarrow> jsobj \<Rightarrow> error + selection" where
  "select_schema t kvp =
     (if fitsParamsExactly kvp (KeySchema (tableDesc t)) then Inr (use_table t)
      else
        (case select_local t kvp of
           (sel, lsiFound) \<Rightarrow> if \<not> lsiFound then select_global t kvp sel else Inr sel))"

section \<open>Strings\<close>

text \<open>The decimal numeral that a template string prints for an array index.\<close>

definition digit_char :: "nat \<Rightarrow> char" where
  "digit_char d = ''0123456789'' ! d"

function string_of_nat :: "nat \<Rightarrow> string" where
  "string_of_nat n =
     (if n < 10 then [digit_char n] else string_of_nat (n div 10) @ [digit_char (n mod 10)])"
  by pat_completeness auto
termination
  by (relation "measure (\<lambda>n. n)") auto

declare string_of_nat.simps [simp del]

text \<open>\<^verbatim>\<open>s.split(c)\<close> for a one-character separator: never empty, \<^verbatim>\<open>''.split('.')\<close> is \<^verbatim>\<open>['']\<close>.\<close>

fun split_on :: "char \<Rightarrow> string \<Rightarrow> string list" where
  "split_on c [] = [[]]"
| "split_on c (x # xs) =
     (if x = c then [] # split_on c xs
      else (case split_on c xs of [] \<Rightarrow> [[x]] | p # ps \<Rightarrow> (x # p) # ps))"

text \<open>\<^verbatim>\<open>parts.join(sep)\<close>.\<close>

fun join :: "string \<Rightarrow> string list \<Rightarrow> string" where
  "join sep [] = []"
| "join sep [p] = p"
| "join sep (p # q # ps) = p @ sep @ join sep (q # ps)"

text \<open>\<^verbatim>\<open>s.split('.').join('_')\<close>.\<close>

definition dotless :: "string \<Rightarrow> string" where
  "dotless s = join ''_'' (split_on (CHR ''.'') s)"

section \<open>Expression builders\<close>

text \<open>
  The two placeholder objects are passed in and mutated by the builders; the model returns
  them updated. \<open>set_all\<close> performs a sequence of assignments \<^verbatim>\<open>o[k] = v\<close> in order.
\<close>

definition set_all :: "(string \<times> 'v) list \<Rightarrow> (string \<times> 'v) list \<Rightarrow> (string \<times> 'v) list" where
  "set_all ps bs = foldl (\<lambda>acc b. obj_set acc (fst b) (snd b)) ps bs"

subsection \<open>buildKeyConditionExpression\<close>

record kstate =
  kexpression :: string
  knames :: "(string \<times> string) list"
  kvalues :: jsobj

text \<open>\<^verbatim>\<open>addKeyToExpression\<close>.\<close>

definition addKeyToExpression :: "jsobj \<Rightarrow> KeySchemaElement \<Rightarrow> kstate \<Rightarrow> kstate" where
  "addKeyToExpression keyValuePairs key st =
     (let keyPlaceholder = ''#'' @ AttributeName key;
          valuePlaceholder = '':'' @ AttributeName key
      in \<lparr> kexpression = kexpression st @ keyPlaceholder @ '' = '' @ valuePlaceholder,
           knames = obj_set (knames st) keyPlaceholder (AttributeName key),
           kvalues = obj_set (kvalues st) valuePlaceholder
                       (js_get keyValuePairs (AttributeName key)) \<rparr>)"

definition buildKeyConditionExpression ::
  "KeySchemaElement list \<Rightarrow> jsobj \<Rightarrow> (string \<times> string) list \<Rightarrow> jsobj \<Rightarrow> error + kstate" where
  "buildKeyConditionExpression keySchema keyValuePairs expressionAttributeNames
       expressionAttributeValues =
     (case find is_hash keySchema of
        None \<Rightarrow> Inl InvalidKeySchema
      | Some pk \<Rightarrow>
          if \<not> truthy (js_get keyValuePairs (AttributeName pk))
          then Inl (MissingPartitionKey (AttributeName pk))
          else
            (let st0 = \<lparr> kexpression = [], knames = expressionAttributeNames,
                         kvalues = expressionAttributeValues \<rparr>;
                 st1 = addKeyToExpression keyValuePairs pk st0
             in case find is_range keySchema of
                  None \<Rightarrow> Inr st1
                | Some sk \<Rightarrow>
                    if truthy (js_get keyValuePairs (AttributeName sk))
                    then Inr (addKeyToExpression keyValuePairs sk
                                (st1\<lparr> kexpression := kexpression st1 @ '' AND '' \<rparr>))
                    else Inr st1))"

subsection \<open>buildFilterExpression\<close>

text \<open>
  \<^verbatim>\<open>buildKeyPlaceholder\<close> assigns one name placeholder per segment of the attribute path:
  \<open>name_bindings\<close> is the list of these assignments, in order, and the placeholder it
  returns is their keys joined by dots.
\<close>

definition name_bindings :: "string \<Rightarrow> (string \<times> string) list" where
  "name_bindings key =
     (let keyParts = split_on (CHR ''.'') key;
          dotlessKey = join ''_'' keyParts
      in map (\<lambda>(index, part). (''#'' @ dotlessKey @ string_of_nat index, part))
           (enumerate 0 keyParts))"

definition key_placeholder :: "string \<Rightarrow> string" where
  "key_placeholder key = join ''.'' (map fst (name_bindings key))"

definition buildKeyPlaceholder ::
  "string \<Rightarrow> (string \<times> string) list \<Rightarrow> string \<times> (string \<times> string) list" where
  "buildKeyPlaceholder key nm = (key_placeholder key, set_all nm (name_bindings key))"

record bstate =
  expression :: string
  names :: "(string \<times> string) list"
  vals :: jsobj

text \<open>\<^verbatim>\<open>addSearchTermToExpression\<close>: an equality clause.\<close>

definition term_bindings :: "string \<Rightarrow> jsval \<Rightarrow> (string \<times> jsval) list" where
  "term_bindings key v = [(dotless ('':'' @ key), v)]"

definition addSearchTermToExpression :: "string \<Rightarrow> jsval \<Rightarrow> bstate \<Rightarrow> bstate" where
  "addSearchTermToExpression key v st =
     (let valuePlaceholder = dotless ('':'' @ key);
          vs = set_all (vals st) (term_bindings key v);
          (kp, nm) = buildKeyPlaceholder key (names st)
      in \<lparr> expression = expression st @ kp @ '' = '' @ valuePlaceholder,
           names = nm, vals = vs \<rparr>)"

text \<open>\<^verbatim>\<open>addInQueryToExpression\<close>: one value placeholder per element, suffixed by its index.\<close>

definition in_bindings :: "string \<Rightarrow> jsval list \<Rightarrow> (string \<times> jsval) list" where
  "in_bindings key vs =
     map (\<lambda>(index, v). (dotless ('':'' @ key @ string_of_nat index), v)) (enumerate 0 vs)"

definition addInQueryToExpression :: "string \<Rightarrow> jsval list \<Rightarrow> bstate \<Rightarrow> bstate" where
  "addInQueryToExpression key vs st =
     (let (keyPlaceholder, nm) = buildKeyPlaceholder key (names st);
          valuePlaceholders = map fst (in_bindings key vs)
      in \<lparr> expression = expression st @ keyPlaceholder @ '' IN ('' @
                          join '','' valuePlaceholders @ '')'',
           names = nm, vals = set_all (vals st) (in_bindings key vs) \<rparr>)"

text \<open>\<^verbatim>\<open>addContainsQueryToExpression\<close>.\<close>

definition addContainsQueryToExpression :: "string \<Rightarrow> jsval \<Rightarrow> bstate \<Rightarrow> bstate" where
  "addContainsQueryToExpression key v st =
     (let (keyPlaceholder, nm) = buildKeyPlaceholder key (names st);
          valuePlaceholder = dotless ('':'' @ key)
      in \<lparr> expression = expression st @ ''contains('' @ keyPlaceholder @ '', '' @
                          valuePlaceholder @ '')'',
           names = nm, vals = set_all (vals st) (term_bindings key v) \<rparr>)"

text \<open>
  \<^verbatim>\<open>addBetweenQueryToExpression\<close>: the clause text and the value assignments, chosen by the
  tests \<^verbatim>\<open>!values[0]\<close> and \<^verbatim>\<open>!values[1]\<close>.
\<close>

definition between_clause :: "string \<Rightarrow> jsval list \<Rightarrow> string" where
  "between_clause key vs =
     (let keyPlaceholder = key_placeholder key;
          p1 = dotless ('':'' @ key @ ''1'')
      in if \<not> truthy (js_nth vs 0) then keyPlaceholder @ '' <= '' @ p1
         else if \<not> truthy (js_nth vs 1) then keyPlaceholder @ '' >= '' @ p1
         else (let p2 = dotless ('':'' @ key @ ''2'')
               in keyPlaceholder @ '' BETWEEN '' @ p1 @ '' AND '' @ p2))"

definition between_bindings :: "string \<Rightarrow> jsval list \<Rightarrow> (string \<times> jsval) list" where
  "between_bindings key vs =
     (let p1 = dotless ('':'' @ key @ ''1'')
      in if \<not> truthy (js_nth vs 0) then [(p1, js_nth vs 1)]
         else if \<not> truthy (js_nth vs 1) then [(p1, js_nth vs 0)]
         else (let p2 = dotless ('':'' @ key @ ''2'')
               in [(p1, js_nth vs 0), (p2, js_nth vs 1)]))"

definition addBetweenQueryToExpression :: "string \<Rightarrow> jsval list \<Rightarrow> bstate \<Rightarrow> bstate" where
  "addBetweenQueryToExpression key vs st =
     (let (keyPlaceholder, nm) = buildKeyPlaceholder key (names st)
      in \<lparr> expression = expression st @ between_clause key vs,
           names = nm, vals = set_all (vals st) (between_bindings key vs) \<rparr>)"

text \<open>The separator each loop writes before a clause once the expression is not empty.\<close>

definition and_sep :: "bstate \<Rightarrow> bstate" where
  "and_sep st = (if expression st \<noteq> [] then st\<lparr> expression := expression st @ '' AND '' \<rparr> else st)"

text \<open>
  The loop over \<^verbatim>\<open>searchTerms\<close>. Reading \<^verbatim>\<open>.constructor\<close> of \<^verbatim>\<open>undefined\<close> or
  \<^verbatim>\<open>null\<close> is a TypeError.
\<close>

fun search_loop :: "jsobj \<Rightarrow> bstate \<Rightarrow> error + bstate" where
  "search_loop [] st = Inr st"
| "search_loop ((key, v) # rest) st =
     (case v of
        JUndefined \<Rightarrow> Inl TypeError
      | JNull \<Rightarrow> Inl TypeError
      | JArr vs \<Rightarrow> search_loop rest (addInQueryToExpression key vs (and_sep st))
      | _ \<Rightarrow> search_loop rest (addSearchTermToExpression key v (and_sep st)))"

fun contains_loop :: "jsobj \<Rightarrow> bstate \<Rightarrow> bstate" where
  "contains_loop [] st = st"
| "contains_loop ((key, v) # rest) st =
     contains_loop rest (addContainsQueryToExpression key v (and_sep st))"

fun between_loop :: "(string \<times> jsval list) list \<Rightarrow> bstate \<Rightarrow> bstate" where
  "between_loop [] st = st"
| "between_loop ((key, vs) # rest) st =
     between_loop rest (addBetweenQueryToExpression key vs (and_sep st))"

text \<open>\<^verbatim>\<open>R.clone(keyValuePairs)\<close> with every attribute of the key schema deleted.\<close>

definition searchTerms :: "KeySchemaElement list \<Rightarrow> jsobj \<Rightarrow> jsobj" where
  "searchTerms keySchema keyValuePairs =
     foldl (\<lambda>acc key. obj_delete acc (AttributeName key)) keyValuePairs keySchema"

text \<open>
  The range query binds each attribute to an array of two bounds. The result's expression is
  \<open>None\<close> for \<^verbatim>\<open>undefined\<close> (no clause was written).
\<close>

definition buildFilterExpression ::
  "KeySchemaElement list \<Rightarrow> jsobj \<Rightarrow> jsobj option \<Rightarrow> (string \<times> jsval list) list option \<Rightarrow>
   (string \<times> string) list \<Rightarrow> jsobj \<Rightarrow> error + (string option \<times> (string \<times> string) list \<times> jsobj)" where
  "buildFilterExpression keySchema keyValuePairs containsQuery betweenQuery
       expressionAttributeNames expressionAttributeValues =
     (case search_loop (searchTerms keySchema keyValuePairs)
             \<lparr> expression = [], names = expressionAttributeNames,
               vals = expressionAttributeValues \<rparr> of
        Inl e \<Rightarrow> Inl e
      | Inr st1 \<Rightarrow>
          (let st2 = (case containsQuery of None \<Rightarrow> st1 | Some cq \<Rightarrow> contains_loop cq st1);
               st3 = (case betweenQuery of None \<Rightarrow> st2 | Some bq \<Rightarrow> between_loop bq st2)
           in Inr (if expression st3 \<noteq> [] then Some (expression st3) else None,
                   names st3, vals st3)))"

section \<open>The parameters of a query and of a scan\<close>

record queryParams =
  qTableName :: string
  qIndexName :: "string option"
  qExpressionAttributeNames :: "(string \<times> string) list"
  qExpressionAttributeValues :: jsobj
  qKeyConditionExpression :: string
  qFilterExpression :: "string option"

text \<open>
  The synchronous part of \<^verbatim>\<open>query\<close>, up to the first store call: \<open>Inr None\<close> is the
  fall-back to \<^verbatim>\<open>scan\<close>, \<open>Inl\<close> an exception thrown inside the promise's executor.
\<close>

definition query_params ::
  "'c DynamoTable \<Rightarrow> jsobj \<Rightarrow> jsobj option \<Rightarrow> (string \<times> jsval list) list option \<Rightarrow>
   error + queryParams option" where
  "query_params t keyValueParameters containsQuery betweenQuery =
     (case select_schema t keyValueParameters of
        Inl e \<Rightarrow> Inl e
      | Inr sel \<Rightarrow>
          (case matchingKeySchema sel of
             None \<Rightarrow> Inr None
           | Some ks \<Rightarrow>
               (case buildKeyConditionExpression ks keyValueParameters [] [] of
                  Inl e \<Rightarrow> Inl e
                | Inr kst \<Rightarrow>
                    (case buildFilterExpression ks keyValueParameters containsQuery betweenQuery
                            (knames kst) (kvalues kst) of
                       Inl e \<Rightarrow> Inl e
                     | Inr (fe, nm, vs) \<Rightarrow>
                         Inr (Some \<lparr> qTableName = tableName t,
                                     qIndexName = selIndexName sel,
                                     qExpressionAttributeNames = nm,
                                     qExpressionAttributeValues = vs,
                                     qKeyConditionExpression = kexpression kst,
                                     qFilterExpression = fe \<rparr>)))))"

record scanParams =
  sTableName :: string
  sExpressionAttributeNames :: "(string \<times> string) list option"
  sExpressionAttributeValues :: "jsobj option"
  sFilterExpression :: "string option"

text \<open>
  The first step of \<^verbatim>\<open>scan\<close> works on the caller's own filter object: a sort key bound to
  an array is re-added under the suffixed name and deleted.
\<close>

definition rename_sort_key :: "'c DynamoTable \<Rightarrow> jsobj \<Rightarrow> jsobj" where
  "rename_sort_key t keyValueParameters =
     (case sortKey t of
        None \<Rightarrow> keyValueParameters
      | Some sk \<Rightarrow>
          if sk \<noteq> [] \<and> truthy (js_get keyValueParameters sk)
               \<and> is_Array (js_get keyValueParameters sk)
          then obj_delete
                 (obj_set keyValueParameters (sk @ ''_filterable'') (js_get keyValueParameters sk))
                 sk
          else keyValueParameters)"

definition scan_params ::
  "'c DynamoTable \<Rightarrow> jsobj \<Rightarrow> jsobj option \<Rightarrow> (string \<times> jsval list) list option \<Rightarrow>
   error + scanParams" where
  "scan_params t keyValueParameters containsQuery betweenQuery =
     (if keyValueParameters \<noteq> [] then
        (case buildFilterExpression (KeySchema (tableDesc t)) keyValueParameters
                containsQuery betweenQuery [] [] of
           Inl e \<Rightarrow> Inl e
         | Inr (fe, nm, vs) \<Rightarrow>
             Inr \<lparr> sTableName = tableName t, sExpressionAttributeNames = Some nm,
                   sExpressionAttributeValues = Some vs, sFilterExpression = fe \<rparr>)
      else Inr \<lparr> sTableName = tableName t, sExpressionAttributeNames = None,
                 sExpressionAttributeValues = None, sFilterExpression = None \<rparr>)"

section \<open>Pagination\<close>

text \<open>
  A promise ends resolved, rejected, or never settles (\<open>Pending\<close>). The store is the list of
  its answers to the successive page requests of one operation; a request past the end of
  the list is never answered.
\<close>

datatype 'a outcome = Resolved 'a | Rejected error | Pending

record page =
  Items :: "jsval list"
  LastEvaluatedKey :: jsval

text \<open>\<^verbatim>\<open>getPage\<close>, which both \<^verbatim>\<open>query\<close> and \<^verbatim>\<open>scan\<close> define in the same way.\<close>

fun getPage :: "jsval list \<Rightarrow> jsval \<Rightarrow> (error + page) list \<Rightarrow> jsval list outcome" where
  "getPage items startKey [] = (if truthy startKey then Pending else Resolved items)"
| "getPage items startKey (r # rest) =
     (if truthy startKey then
        (case r of
           Inl err \<Rightarrow> Rejected err
         | Inr pageResult \<Rightarrow>
             getPage (items @ Items pageResult) (LastEvaluatedKey pageResult) rest)
      else Resolved items)"

definition getAllPages :: "page \<Rightarrow> (error + page) list \<Rightarrow> jsval list outcome" where
  "getAllPages result rest = getPage (Items result) (LastEvaluatedKey result) rest"

text \<open>\<^verbatim>\<open>mapItemResult\<close>: set values become arrays; then the factory, when it is to be used.\<close>

definition unwrap_sets :: "jsval \<Rightarrow> jsval" where
  "unwrap_sets item =
     (case item of
        JObj ps \<Rightarrow> JObj (map (\<lambda>(k, v). (k, case v of JSet xs \<Rightarrow> JArr xs | _ \<Rightarrow> v)) ps)
      | _ \<Rightarrow> item)"

definition mapItemResult :: "(jsval \<Rightarrow> error + jsval) DynamoTable \<Rightarrow> jsval \<Rightarrow> error + jsval" where
  "mapItemResult t item =
     (case objectConstructor t of
        Some ctor \<Rightarrow> if constructOnGet t then ctor (unwrap_sets item) else Inr (unwrap_sets item)
      | None \<Rightarrow> Inr (unwrap_sets item))"

text \<open>\<^verbatim>\<open>R.map\<close> with a function that may throw: the first exception ends the map.\<close>

fun map_items :: "('a \<Rightarrow> error + 'b) \<Rightarrow> 'a list \<Rightarrow> error + 'b list" where
  "map_items f [] = Inr []"
| "map_items f (x # xs) =
     (case f x of
        Inl e \<Rightarrow> Inl e
      | Inr y \<Rightarrow> (case map_items f xs of Inl e \<Rightarrow> Inl e | Inr ys \<Rightarrow> Inr (y # ys)))"

text \<open>
  The asynchronous part of \<^verbatim>\<open>scan\<close>: every promise is returned from the handler that
  creates it, so a rejection or an exception reaches the caller.
\<close>

definition scan_pages ::
  "(jsval \<Rightarrow> error + jsval) DynamoTable \<Rightarrow> (error + page) list \<Rightarrow> jsval list outcome" where
  "scan_pages t responses =
     (case responses of
        [] \<Rightarrow> Pending
      | Inl err # rest \<Rightarrow> Rejected err
      | Inr result # rest \<Rightarrow>
          (case getAllPages result rest of
             Resolved allItems \<Rightarrow>
               (case map_items (mapItemResult t) allItems of
                  Inl e \<Rightarrow> Rejected e
                | Inr items \<Rightarrow> Resolved items)
           | Rejected err \<Rightarrow> Rejected err
           | Pending \<Rightarrow> Pending))"

text \<open>
  The asynchronous part of \<^verbatim>\<open>query\<close>. The first call's rejection is passed to the outer
  promise's \<^verbatim>\<open>reject\<close>. The promise of \<^verbatim>\<open>getAllPages\<close> is given a fulfilment handler only
  and is not returned: when it is rejected, or when the handler throws, nothing settles the
  outer promise.
\<close>

definition query_pages ::
  "(jsval \<Rightarrow> error + jsval) DynamoTable \<Rightarrow> (error + page) list \<Rightarrow> jsval list outcome" where
  "query_pages t responses =
     (case responses of
        [] \<Rightarrow> Pending
      | Inl err # rest \<Rightarrow> Rejected err
      | Inr result # rest \<Rightarrow>
          (case getAllPages result rest of
             Resolved allItems \<Rightarrow>
               (case map_items (mapItemResult t) allItems of
                  Inl e \<Rightarrow> Pending
                | Inr items \<Rightarrow> Resolved items)
           | Rejected err \<Rightarrow> Pending
           | Pending \<Rightarrow> Pending))"

section \<open>scan and query\<close>

text \<open>
  Both operations return the caller's filter object as the call leaves it, and the outcome of
  the promise. An exception before the first store call is a rejected outcome. A call without
  a filter object works on a fresh empty one.
\<close>

definition scan ::
  "(jsval \<Rightarrow> error + jsval) DynamoTable \<Rightarrow> jsobj \<Rightarrow> jsobj option \<Rightarrow>
   (string \<times> jsval list) list option \<Rightarrow> (error + page) list \<Rightarrow> jsobj \<times> jsval list outcome" where
  "scan t keyValueParameters containsQuery betweenQuery responses =
     (let kvp = rename_sort_key t keyValueParameters
      in case scan_params t kvp containsQuery betweenQuery of
           Inl e \<Rightarrow> (kvp, Rejected e)
         | Inr scanParams \<Rightarrow> (kvp, scan_pages t responses))"

definition query ::
  "(jsval \<Rightarrow> error + jsval) DynamoTable \<Rightarrow> jsobj \<Rightarrow> jsobj option \<Rightarrow>
   (string \<times> jsval list) list option \<Rightarrow> (error + page) list \<Rightarrow> jsobj \<times> jsval list outcome" where
  "query t keyValueParameters containsQuery betweenQuery responses =
     (case query_params t keyValueParameters containsQuery betweenQuery of
        Inl e \<Rightarrow> (keyValueParameters, Rejected e)
      | Inr None \<Rightarrow> scan t keyValueParameters containsQuery betweenQuery responses
      | Inr (Some queryParams) \<Rightarrow> (keyValueParameters, query_pages t responses))"

section \<open>Key parameters of getItem and deleteItem\<close>

text \<open>A property name is a string: \<^verbatim>\<open>params.Key[null]\<close> is the property \<^verbatim>\<open>'null'\<close>.\<close>

definition property_name :: "string option \<Rightarrow> string" where
  "property_name k = (case k of None \<Rightarrow> ''null'' | Some s \<Rightarrow> s)"

record keyParams =
  Key :: jsobj
  kTableName :: string

text \<open>An argument the caller leaves out is \<^verbatim>\<open>undefined\<close>.\<close>

definition buildKeyParameters :: "'c DynamoTable \<Rightarrow> jsval \<Rightarrow> jsval \<Rightarrow> keyParams" where
  "buildKeyParameters t partitionKeyValue sortKeyValue =
     \<lparr> Key = obj_set (obj_set [] (partitionKey t) partitionKeyValue)
               (property_name (sortKey t)) sortKeyValue,
       kTableName = tableName t \<rparr>"

text \<open>
  \<^verbatim>\<open>deleteItem\<close> and \<^verbatim>\<open>getItem\<close>: the request sent to the store, and the outcome from the
  store's answer (for \<^verbatim>\<open>get\<close>, the \<^verbatim>\<open>Item\<close> of the result, \<^verbatim>\<open>undefined\<close> when there is
  none).
\<close>

definition deleteItem ::
  "'c DynamoTable \<Rightarrow> jsval \<Rightarrow> jsval \<Rightarrow> (keyParams \<Rightarrow> error + unit) \<Rightarrow> keyParams \<times> unit outcome" where
  "deleteItem t partitionKeyValue sortKeyValue store_delete =
     (let params = buildKeyParameters t partitionKeyValue sortKeyValue
      in (params, case store_delete params of Inl e \<Rightarrow> Rejected e | Inr u \<Rightarrow> Resolved u))"

definition getItem ::
  "(jsval \<Rightarrow> error + jsval) DynamoTable \<Rightarrow> jsval \<Rightarrow> jsval \<Rightarrow> (keyParams \<Rightarrow> error + jsval) \<Rightarrow>
   keyParams \<times> jsval outcome" where
  "getItem t partitionKeyValue sortKeyValue store_get =
     (let params = buildKeyParameters t partitionKeyValue sortKeyValue
      in (params,
          case store_get params of
            Inl e \<Rightarrow> Rejected e
          | Inr item \<Rightarrow>
              if \<not> truthy item then Resolved JUndefined
              else (case mapItemResult t item of Inl e \<Rightarrow> Rejected e | Inr v \<Rightarrow> Resolved v)))"

section \<open>putItem on an object store\<close>

text \<open>
  \<^verbatim>\<open>putItem\<close> copies the item and then deletes properties in place, so here an object is a
  reference into a store of objects: two properties holding the same reference share the
  object. The store is a list, an address is an index, and a new object goes last.
\<close>

datatype hval =
    HUndefined
  | HNull
  | HBool bool
  | HNum int
  | HStr string
  | HRef nat

type_synonym hobj = "(string \<times> hval) list"
type_synonym heap = "hobj list"

definition own_props :: "heap \<Rightarrow> nat \<Rightarrow> hobj" where
  "own_props h a = (if a < length h then h ! a else [])"

definition hget :: "heap \<Rightarrow> nat \<Rightarrow> string \<Rightarrow> hval" where
  "hget h a k = (case map_of (own_props h a) k of None \<Rightarrow> HUndefined | Some v \<Rightarrow> v)"

definition hdelete :: "heap \<Rightarrow> nat \<Rightarrow> string \<Rightarrow> heap" where
  "hdelete h a k = (if a < length h then h[a := obj_delete (h ! a) k] else h)"

definition alloc :: "heap \<Rightarrow> hobj \<Rightarrow> heap \<times> hval" where
  "alloc h ps = (h @ [ps], HRef (length h))"

text \<open>
  \<^verbatim>\<open>toPlainObject\<close>: a new object with the own properties of the given one. The property
  values are copied as they are, references included.
\<close>

definition toPlainObject :: "heap \<Rightarrow> hval \<Rightarrow> heap \<times> hval" where
  "toPlainObject h obj =
     (case obj of
        HRef a \<Rightarrow> alloc h (set_all [] (own_props h a))
      | _ \<Rightarrow> alloc h [])"

text \<open>
  \<^verbatim>\<open>deleteEmptyStrings\<close>. The recursion follows references and need not end on a cyclic
  object, so it takes fuel: \<open>None\<close> is fuel exhausted. \<^verbatim>\<open>typeof null\<close> is \<^verbatim>\<open>'object'\<close>, and
  a loop over \<^verbatim>\<open>null\<close> has no step. The loop visits the property names the object has on
  entry and reads each value when it gets there.
\<close>

fun deleteEmptyStrings :: "nat \<Rightarrow> heap \<Rightarrow> hval \<Rightarrow> (error + heap) option" where
  "deleteEmptyStrings 0 h obj = None"
| "deleteEmptyStrings (Suc n) h obj =
     (case obj of
        HRef a \<Rightarrow>
          foldl (\<lambda>acc i.
                   case acc of
                     Some (Inr h1) \<Rightarrow>
                       (case hget h1 a i of
                          HStr s \<Rightarrow> if s = [] then Some (Inr (hdelete h1 a i)) else acc
                        | HRef b \<Rightarrow> deleteEmptyStrings n h1 (HRef b)
                        | HNull \<Rightarrow> deleteEmptyStrings n h1 HNull
                        | _ \<Rightarrow> acc)
                   | _ \<Rightarrow> acc)
            (Some (Inr h)) (map fst (own_props h a))
      | HNull \<Rightarrow> Some (Inr h)
      | _ \<Rightarrow> Some (Inl InvalidObject))"

text \<open>
  The result of \<^verbatim>\<open>putItem\<close>: the item handed to the store as \<^verbatim>\<open>params.Item\<close>, the outcome
  of the promise, and the object store after the call. \<open>put_answer\<close> is the store's answer to
  the one \<^verbatim>\<open>put\<close> call.
\<close>

record put_result =
  written :: "hval option"
  resolved :: "hval outcome"
  heap_after :: heap

definition putItem ::
  "(heap \<Rightarrow> hval \<Rightarrow> error + heap \<times> hval) DynamoTable \<Rightarrow> nat \<Rightarrow> heap \<Rightarrow> hval \<Rightarrow>
   error option \<Rightarrow> put_result option" where
  "putItem t fuel h item put_answer =
     (case (case objectConstructor t of
              None \<Rightarrow> Inr (h, item)
            | Some ctor \<Rightarrow> ctor h item) of
        Inl err \<Rightarrow> Some \<lparr> written = None, resolved = Rejected err, heap_after = h \<rparr>
      | Inr (h1, item1) \<Rightarrow>
          (case toPlainObject h1 item1 of
             (h2, plainItem) \<Rightarrow>
               (case deleteEmptyStrings fuel h2 plainItem of
                  None \<Rightarrow> None
                | Some (Inl err) \<Rightarrow>
                    Some \<lparr> written = None, resolved = Rejected err, heap_after = h2 \<rparr>
                | Some (Inr h3) \<Rightarrow>
                    Some \<lparr> written = Some plainItem,
                           resolved = (case put_answer of
                                         Some err \<Rightarrow> Rejected err
                                       | None \<Rightarrow> Resolved item1),
                           heap_after = h3 \<rparr>)))"

text \<open>The tree an object of the store stands for, read with fuel.\<close>

fun snapshot :: "nat \<Rightarrow> heap \<Rightarrow> hval \<Rightarrow> jsval option" where
  "snapshot n h HUndefined = Some JUndefined"
| "snapshot n h HNull = Some JNull"
| "snapshot n h (HBool b) = Some (JBool b)"
| "snapshot n h (HNum i) = Some (JNum i)"
| "snapshot n h (HStr s) = Some (JStr s)"
| "snapshot 0 h (HRef a) = None"
| "snapshot (Suc n) h (HRef a) =
     map_option JObj
       (those (map (\<lambda>p. map_option (Pair (fst p)) (snapshot n h (snd p))) (own_props h a)))"

section \<open>Exact scalar fit\<close>

text \<open>
  The specification's exact scalar fit, in its own words: every attribute of the key schema is
  present in the filter set as a scalar, not a list. It is compared with the code's
  \<^verbatim>\<open>fitsParamsExactly\<close> in the facts below, with present read as truthy.
\<close>

definition scalar_fit :: "jsobj \<Rightarrow> KeySchemaElement list \<Rightarrow> bool" where
  "scalar_fit kvp ks =
     list_all (\<lambda>key. truthy (js_get kvp (AttributeName key))
                    \<and> \<not> is_Array (js_get kvp (AttributeName key))) ks"

section \<open>An example table\<close>

text \<open>
  The table of the example application: partition key \<^verbatim>\<open>location\<close>, sort key \<^verbatim>\<open>id\<close>, and
  one global secondary index on \<^verbatim>\<open>email\<close>.
\<close>

definition people_schema :: "KeySchemaElement list" where
  "people_schema =
     [\<lparr> AttributeName = ''location'', KeyType = HASH \<rparr>,
      \<lparr> AttributeName = ''id'', KeyType = RANGE \<rparr>]"

definition byEmail :: IndexDesc where
  "byEmail =
     \<lparr> IndexName = ''byEmail'',
       IndexKeySchema = [\<lparr> AttributeName = ''email'', KeyType = HASH \<rparr>] \<rparr>"

definition people_desc :: TableDesc where
  "people_desc =
     \<lparr> TableName = ''people'', KeySchema = people_schema, LocalSecondaryIndexes = None,
       GlobalSecondaryIndexes = Some [byEmail], ItemCount = 0 \<rparr>"

definition people :: "(jsval \<Rightarrow> error + jsval) DynamoTable" where
  "people =
     \<lparr> tableName = ''people'', partitionKey = ''location'', sortKey = Some ''id'',
       itemCount = 0, tableDesc = people_desc, objectConstructor = None,
       constructOnGet = False \<rparr>"






text \<open>The same table for \<^verbatim>\<open>putItem\<close>, without an item factory.\<close>

definition people_store :: "(heap \<Rightarrow> hval \<Rightarrow> error + heap \<times> hval) DynamoTable" where
  "people_store =
     \<lparr> tableName = ''people'', partitionKey = ''location'', sortKey = Some ''id'',
       itemCount = 0, tableDesc = people_desc, objectConstructor = None,
       constructOnGet = False \<rparr>"

text \<open>The item \<^verbatim>\<open>{a: '', b: {c: '', d: 'x'}}\<close>: the outer object at address 0, the inner at 1.\<close>

definition nested_item :: heap where
  "nested_item =
     [[(''a'', HStr ''''), (''b'', HRef 1)],
      [(''c'', HStr ''''), (''d'', HStr ''x'')]]"

text \<open>A page of one item that names a continuation key.\<close>

definition first_page :: page where
  "first_page =
     \<lparr> Items = [JObj [(''id'', JStr ''1'')]], LastEvaluatedKey = JObj [(''id'', JStr ''1'')] \<rparr>"

section \<open>The assignments of one buildFilterExpression call\<close>

text \<open>
  The builder writes into the two placeholder objects only through the binding lists of its
  clauses. \<open>name_writes\<close> and \<open>value_writes\<close> are all assignments of one call in the order
  they are made: the clauses of the residual filter entries, then of the contains query, then
  of the range query. \<open>filter_paths\<close> are the attribute paths these clauses are written for.
\<close>

definition entries :: "'a list option \<Rightarrow> 'a list" where
  "entries q = (case q of None \<Rightarrow> [] | Some es \<Rightarrow> es)"

definition search_bindings :: "string \<Rightarrow> jsval \<Rightarrow> (string \<times> jsval) list" where
  "search_bindings key v =
     (case v of JArr vs \<Rightarrow> in_bindings key vs | _ \<Rightarrow> term_bindings key v)"

definition name_writes ::
  "KeySchemaElement list \<Rightarrow> jsobj \<Rightarrow> jsobj option \<Rightarrow> (string \<times> jsval list) list option \<Rightarrow>
   (string \<times> string) list" where
  "name_writes keySchema keyValuePairs containsQuery betweenQuery =
     concat (map (\<lambda>e. name_bindings (fst e)) (searchTerms keySchema keyValuePairs))
     @ concat (map (\<lambda>e. name_bindings (fst e)) (entries containsQuery))
     @ concat (map (\<lambda>e. name_bindings (fst e)) (entries betweenQuery))"

definition value_writes ::
  "KeySchemaElement list \<Rightarrow> jsobj \<Rightarrow> jsobj option \<Rightarrow> (string \<times> jsval list) list option \<Rightarrow>
   (string \<times> jsval) list" where
  "value_writes keySchema keyValuePairs containsQuery betweenQuery =
     concat (map (\<lambda>e. search_bindings (fst e) (snd e)) (searchTerms keySchema keyValuePairs))
     @ concat (map (\<lambda>e. term_bindings (fst e) (snd e)) (entries containsQuery))
     @ concat (map (\<lambda>e. between_bindings (fst e) (snd e)) (entries betweenQuery))"

definition filter_paths ::
  "KeySchemaElement list \<Rightarrow> jsobj \<Rightarrow> jsobj option \<Rightarrow> (string \<times> jsval list) list option \<Rightarrow>
   string list" where
  "filter_paths keySchema keyValuePairs containsQuery betweenQuery =
     map fst (searchTerms keySchema keyValuePairs) @ map fst (entries containsQuery)
     @ map fst (entries betweenQuery)"

text \<open>No placeholder is assigned two different things.\<close>

fun unique_bindings :: "(string \<times> 'v) list \<Rightarrow> bool" where
  "unique_bindings [] = True"
| "unique_bindings ((k, v) # bs) =
     (list_all (\<lambda>b. fst b = k \<longrightarrow> snd b = v) bs \<and> unique_bindings bs)"

text \<open>
  What \<^verbatim>\<open>split('.').join('_')\<close> does to one character, and the attribute paths on which the
  placeholder scheme cannot clash: no underscore, and no decimal digit at the end.
\<close>

definition sanitise :: "char \<Rightarrow> char" where
  "sanitise c = (if c = CHR ''.'' then CHR ''_'' else c)"

definition is_digit :: "char \<Rightarrow> bool" where
  "is_digit c = (c \<in> set ''0123456789'')"

definition tidy_path :: "string \<Rightarrow> bool" where
  "tidy_path k = (CHR ''_'' \<notin> set k \<and> (k = [] \<or> \<not> is_digit (last k)))"

section \<open>Basic facts\<close>

lemma people_constructed: "newDynamoTable people_desc None False = Inr people"
  by (simp add: newDynamoTable_def people_desc_def people_schema_def people_def
      is_hash_def is_range_def)

lemma obj_get_obj_set:
  "obj_get (obj_set ps k v) k' = (if k' = k then Some v else obj_get ps k')"
  by (induction ps) (auto simp: obj_get_def)

lemma obj_get_obj_delete:
  "obj_get (obj_delete ps k) k' = (if k' = k then None else obj_get ps k')"
  by (induction ps) (auto simp: obj_get_def obj_delete_def)


lemma fitsParamsExactly_iff: "fitsParamsExactly kvp ks \<longleftrightarrow> scalar_fit kvp ks"
  by (induction ks) (auto simp: scalar_fit_def)



lemma search_loop_error: "search_loop ts st = Inl e \<Longrightarrow> e = TypeError"
proof (induction ts arbitrary: st)
  case Nil
  then show ?case by simp
next
  case (Cons a ts)
  obtain key v where a: "a = (key, v)" by (cases a)
  from Cons.prems show ?case
    unfolding a by (cases v) (auto dest: Cons.IH)
qed

lemma buildFilterExpression_error:
  "buildFilterExpression ks kvp cq bq nm vs = Inl e \<Longrightarrow> e = TypeError"
  by (auto simp: buildFilterExpression_def Let_def split: sum.splits dest: search_loop_error)

lemma constructed_fields:
  assumes "newDynamoTable td ctor onGet = Inr t"
  shows "tableDesc t = td" and "tableName t = TableName td"
    and "\<exists>pk. find is_hash (KeySchema td) = Some pk \<and> partitionKey t = AttributeName pk"
  using assms by (auto simp: newDynamoTable_def split: option.splits)


text \<open>A key attribute named like a member of \<^verbatim>\<open>Object.prototype\<close> counts as bound.\<close>

lemma inherited_member_counts_as_bound:
  "js_get [] ''toString'' = JFun ''toString''
   \<and> buildKeyConditionExpression [\<lparr> AttributeName = ''toString'', KeyType = HASH \<rparr>] [] [] []
       = Inr \<lparr> kexpression = ''#toString = :toString'',
               knames = [(''#toString'', ''toString'')],
               kvalues = [('':toString'', JFun ''toString'')] \<rparr>"
  by code_simp

section \<open>Index selection: the primary schema and the global indexes\<close>




section \<open>scan rewrites the caller's filter set\<close>

text \<open>
  Claim C9: when the filter set binds the table's sort key to an array, \<^verbatim>\<open>scan\<close> changes the
  caller's filter object: afterwards it has no entry under the sort key and holds the array
  under the name suffixed with \<^verbatim>\<open>_filterable\<close>. A \<^verbatim>\<open>query\<close> that falls back to \<^verbatim>\<open>scan\<close>
  passes its caller's object on, so it leaves the same change. The sort key's name is not
  empty, as the test \<^verbatim>\<open>this.sortKey &&\<close> requires.
\<close>

theorem scan_renames_list_sort_key:
  assumes "sortKey t = Some sk" and "sk \<noteq> []" and "js_get kvp sk = JArr vs"
  shows "fst (scan t kvp cq bq rs) = obj_delete (obj_set kvp (sk @ ''_filterable'') (JArr vs)) sk
    \<and> obj_get (fst (scan t kvp cq bq rs)) sk = None
    \<and> obj_get (fst (scan t kvp cq bq rs)) (sk @ ''_filterable'') = Some (JArr vs)
    \<and> (query_params t kvp cq bq = Inr None \<longrightarrow> query t kvp cq bq rs = scan t kvp cq bq rs)"
proof -
  have r: "rename_sort_key t kvp = obj_delete (obj_set kvp (sk @ ''_filterable'') (JArr vs)) sk"
    using assms by (simp add: rename_sort_key_def)
  have s: "fst (scan t kvp cq bq rs) = rename_sort_key t kvp"
    by (simp add: scan_def Let_def split: sum.splits)
  show ?thesis
    by (simp add: s r obj_get_obj_delete obj_get_obj_set query_def)
qed

theorem scan_renames_list_sort_key_witness:
  "fst (query people [(''id'', JArr [JStr ''1'', JStr ''2''])] None None [])
     = [(''id_filterable'', JArr [JStr ''1'', JStr ''2''])]"
proof -
  have q: "query_params people [(''id'', JArr [JStr ''1'', JStr ''2''])] None None = Inr None"
    by code_simp
  show ?thesis
    using scan_renames_list_sort_key [of people "''id''" "[(''id'', JArr [JStr ''1'', JStr ''2''])]"
        "[JStr ''1'', JStr ''2'']" None None "[]"] q
    by (simp add: people_def js_get_def obj_delete_def)
qed

section \<open>The key object of getItem and deleteItem\<close>

text \<open>
  Claim C10: the key object that \<^verbatim>\<open>getItem\<close> and \<^verbatim>\<open>deleteItem\<close> send to the store always has
  an entry under the name of the table's sort key, holding the sort value argument (also when
  that argument is left out and so \<^verbatim>\<open>undefined\<close>); for a table without a sort key the entry
  is named \<^verbatim>\<open>null\<close>.
\<close>

theorem key_object_has_sort_key_entry:
  "obj_get (Key (fst (getItem t pv sv g))) (property_name (sortKey t)) = Some sv
   \<and> obj_get (Key (fst (deleteItem t pv sv d))) (property_name (sortKey t)) = Some sv
   \<and> obj_get (Key (fst (getItem (t\<lparr> sortKey := None \<rparr>) pv JUndefined g))) ''null''
       = Some JUndefined
   \<and> obj_get (Key (fst (deleteItem (t\<lparr> sortKey := None \<rparr>) pv JUndefined d))) ''null''
       = Some JUndefined"
  by (auto simp: getItem_def deleteItem_def buildKeyParameters_def obj_get_def
      property_name_def Let_def split: option.splits)

theorem key_object_has_sort_key_entry_witness:
  "obj_get (Key (fst (getItem people (JStr ''NY'') JUndefined (\<lambda>p. Inr JUndefined)))) ''id''
     = Some JUndefined
   \<and> obj_get (Key (fst (deleteItem (people\<lparr> sortKey := None \<rparr>) (JStr ''NY'') JUndefined
                          (\<lambda>p. Inr ())))) ''null''
     = Some JUndefined"
  using key_object_has_sort_key_entry [of people "JStr ''NY''" JUndefined "\<lambda>p. Inr JUndefined"
      "\<lambda>p. Inr ()"]
  by (simp add: people_def property_name_def)

section \<open>List values in index selection and in the key condition\<close>

text \<open>
  Claim C2 says that a key bound to an array never counts as present. On the code it does:
  the tests \<^verbatim>\<open>if (partitionKeyValue)\<close> and \<^verbatim>\<open>if (keyValueParameters[pk.AttributeName])\<close>
  are truthiness tests, and an array is truthy, while \<^verbatim>\<open>fitsParamsExactly\<close> beside them
  excludes arrays. For the filter set \<^verbatim>\<open>{location: ['NY', 'LA']}\<close> the partition-present
  step selects the primary schema, and the query that is built compares the partition key
  with the array; for \<^verbatim>\<open>{email: ['a@b.c', 'd@e.f']}\<close> the partial global match selects
  \<^verbatim>\<open>byEmail\<close>.
\<close>

theorem list_partition_key_counts_as_present:
  "select_schema people [(''location'', JArr [JStr ''NY'', JStr ''LA''])] = Inr (use_table people)
   \<and> query_params people [(''location'', JArr [JStr ''NY'', JStr ''LA''])] None None =
       Inr (Some \<lparr> qTableName = ''people'', qIndexName = None,
              qExpressionAttributeNames = [(''#location'', ''location'')],
              qExpressionAttributeValues = [('':location'', JArr [JStr ''NY'', JStr ''LA''])],
              qKeyConditionExpression = ''#location = :location'',
              qFilterExpression = None \<rparr>)
   \<and> select_schema people [(''email'', JArr [JStr ''a@b.c'', JStr ''d@e.f''])]
       = Inr (use_index byEmail)"
  by code_simp

text \<open>
  A list value that reaches the filter expression is written as an IN clause with one value
  placeholder per element, bound to the elements in order.
\<close>

lemma in_clause_one_placeholder_per_element:
  "expression (addInQueryToExpression key vs st)
     = expression st @ key_placeholder key @ '' IN ('' @ join '','' (map fst (in_bindings key vs))
         @ '')''
   \<and> length (in_bindings key vs) = length vs
   \<and> map snd (in_bindings key vs) = vs"
proof -
  have "map snd (in_bindings key vs) = map snd (enumerate 0 vs)"
    by (simp add: in_bindings_def comp_def case_prod_unfold)
  then show ?thesis
    by (simp add: addInQueryToExpression_def buildKeyPlaceholder_def in_bindings_def)
qed

text \<open>
  Claim C3 says that a list value is never written into a key-condition equality, and a
  list-valued sort key in particular. On the code, \<^verbatim>\<open>buildKeyConditionExpression\<close> tests
  \<^verbatim>\<open>sortKey && sortKeyValue\<close>, which an array passes: for the filter set
  \<^verbatim>\<open>{location: 'NY', id: ['1', '2']}\<close> the key condition is
  \<^verbatim>\<open>#location = :location AND #id = :id\<close> with \<^verbatim>\<open>:id\<close> bound to the array, and no IN clause
  is written, because \<^verbatim>\<open>id\<close> is a key of the schema and so removed from the filter terms.
\<close>

theorem list_sort_key_in_key_condition:
  "query_params people [(''location'', JStr ''NY''), (''id'', JArr [JStr ''1'', JStr ''2''])]
       None None =
     Inr (Some \<lparr> qTableName = ''people'', qIndexName = None,
            qExpressionAttributeNames = [(''#location'', ''location''), (''#id'', ''id'')],
            qExpressionAttributeValues =
              [('':location'', JStr ''NY''), ('':id'', JArr [JStr ''1'', JStr ''2''])],
            qKeyConditionExpression = ''#location = :location AND #id = :id'',
            qFilterExpression = None \<rparr>)"
  by code_simp

section \<open>Failures during pagination\<close>

lemma getPage_failure:
  "truthy k \<Longrightarrow> \<forall>p \<in> set ps. truthy (LastEvaluatedKey p) \<Longrightarrow>
     getPage items k (map Inr ps @ Inl err # rest) = Rejected err"
  by (induction ps arbitrary: items k) auto

text \<open>A failing first call rejects both operations.\<close>

lemma first_page_failure_rejects:
  "scan_pages t (Inl err # rest) = Rejected err \<and> query_pages t (Inl err # rest) = Rejected err"
  by (simp add: scan_pages_def query_pages_def)

text \<open>
  A failure after the first page: \<^verbatim>\<open>scan\<close> is rejected with the store's error, \<^verbatim>\<open>query\<close>
  never settles. Neither resolves with the pages fetched so far.
\<close>

lemma later_page_failure:
  assumes "\<forall>p \<in> set (result # ps). truthy (LastEvaluatedKey p)"
  shows "scan_pages t (Inr result # map Inr ps @ Inl err # rest) = Rejected err"
    and "query_pages t (Inr result # map Inr ps @ Inl err # rest) = Pending"
  using assms getPage_failure [of "LastEvaluatedKey result" ps "Items result" err rest]
  by (simp_all add: scan_pages_def query_pages_def getAllPages_def)

text \<open>
  Claim C5 says that a failing page fetch, the first or a later one, gives the caller a failed
  outcome with no items, for \<^verbatim>\<open>query\<close> and for \<^verbatim>\<open>scan\<close>. On the code this holds for
  \<^verbatim>\<open>scan\<close> and for the first call of \<^verbatim>\<open>query\<close>. When the second page of a \<^verbatim>\<open>query\<close>
  fails, the promise of \<^verbatim>\<open>getAllPages\<close> is rejected, but it has no rejection handler and is
  not returned, so the promise \<^verbatim>\<open>query\<close> gave its caller never settles: no items, and no
  failure either.
\<close>

theorem query_never_settles_on_later_page_failure:
  "query people [(''location'', JStr ''NY'')] None None
       [Inr first_page, Inl (StoreError ''throttled'')]
     = ([(''location'', JStr ''NY'')], Pending)
   \<and> scan people [(''location'', JStr ''NY'')] None None
       [Inr first_page, Inl (StoreError ''throttled'')]
     = ([(''location'', JStr ''NY'')], Rejected (StoreError ''throttled''))"
  by code_simp

section \<open>putItem and the caller's item\<close>

text \<open>
  Claim C6 says that \<^verbatim>\<open>putItem\<close> writes a copy without empty strings, also nested ones, and
  resolves with the item unchanged by the cleaning. On the code the copy is one level deep:
  \<^verbatim>\<open>toPlainObject\<close> copies the references of nested objects, and \<^verbatim>\<open>deleteEmptyStrings\<close>
  then deletes inside the objects the caller's item still holds. For
  \<^verbatim>\<open>{a: '', b: {c: '', d: 'x'}}\<close> the written item is \<^verbatim>\<open>{b: {d: 'x'}}\<close> as claimed, but the
  resolved item is \<^verbatim>\<open>{a: '', b: {d: 'x'}}\<close>: it keeps \<^verbatim>\<open>a\<close> and has lost \<^verbatim>\<open>b.c\<close>.
\<close>

theorem putItem_cleans_nested_objects_of_resolved_item:
  "putItem people_store 2 nested_item (HRef 0) None =
     Some \<lparr> written = Some (HRef 2), resolved = Resolved (HRef 0),
            heap_after = [[(''a'', HStr ''''), (''b'', HRef 1)], [(''d'', HStr ''x'')],
                          [(''b'', HRef 1)]] \<rparr>
   \<and> snapshot 2 nested_item (HRef 0)
       = Some (JObj [(''a'', JStr ''''), (''b'', JObj [(''c'', JStr ''''), (''d'', JStr ''x'')])])
   \<and> snapshot 2 [[(''a'', HStr ''''), (''b'', HRef 1)], [(''d'', HStr ''x'')], [(''b'', HRef 1)]]
         (HRef 2)
       = Some (JObj [(''b'', JObj [(''d'', JStr ''x'')])])
   \<and> snapshot 2 [[(''a'', HStr ''''), (''b'', HRef 1)], [(''d'', HStr ''x'')], [(''b'', HRef 1)]]
         (HRef 0)
       = Some (JObj [(''a'', JStr ''''), (''b'', JObj [(''d'', JStr ''x'')])])"
  by code_simp

section \<open>The partition key in the key condition\<close>

text \<open>
  In \<^verbatim>\<open>query\<close> the failure for a missing partition key cannot happen: every schema the
  selection hands to \<^verbatim>\<open>buildKeyConditionExpression\<close> has its partition key bound to a
  truthy value, and a filter set without one falls back to \<^verbatim>\<open>scan\<close>.
\<close>

lemma fits_hash_truthy:
  "fitsParamsExactly kvp ks \<Longrightarrow> find is_hash ks = Some pk \<Longrightarrow>
     truthy (js_get kvp (AttributeName pk))"
proof -
  assume f: "fitsParamsExactly kvp ks" and h: "find is_hash ks = Some pk"
  from h have "pk \<in> set ks" by (auto simp: find_Some_iff)
  with f show ?thesis by (auto simp: fitsParamsExactly_iff scalar_fit_def list_all_iff)
qed

lemma first_exact_fits:
  "first_exact kvp xs = Some index \<Longrightarrow> fitsParamsExactly kvp (IndexKeySchema index)"
  by (induction xs) (auto split: if_splits)

lemma first_partial_hash:
  "first_partial kvp xs = Inr (Some index) \<Longrightarrow>
     \<exists>pk. find is_hash (IndexKeySchema index) = Some pk \<and> truthy (js_get kvp (AttributeName pk))"
  by (induction xs) (auto split: if_splits option.splits)

lemma key_condition_not_missing:
  "(\<And>pk. find is_hash ks = Some pk \<Longrightarrow> truthy (js_get kvp (AttributeName pk))) \<Longrightarrow>
     buildKeyConditionExpression ks kvp nm vs \<noteq> Inl (MissingPartitionKey p)"
  by (auto simp: buildKeyConditionExpression_def Let_def split: option.splits)

lemma selected_hash_truthy:
  assumes built: "newDynamoTable td ctor onGet = Inr t"
    and sel: "select_schema t kvp = Inr sel" "matchingKeySchema sel = Some ks"
    and h: "find is_hash ks = Some pk"
  shows "truthy (js_get kvp (AttributeName pk))"
proof -
  note f = constructed_fields [OF built]
  from f(3) obtain hk where hk: "find is_hash (KeySchema td) = Some hk"
    "partitionKey t = AttributeName hk" by blast
  have tab: "truthy (js_get kvp (AttributeName pk))"
    if "sel = use_table t" "truthy (js_get kvp (partitionKey t)) \<or> fitsParamsExactly kvp (KeySchema td)"
    using that sel(2) h hk fits_hash_truthy [of kvp "KeySchema td" pk]
    by (auto simp: use_table_def f(1))
  have idx: "truthy (js_get kvp (AttributeName pk))"
    if "sel = use_index index" "fitsParamsExactly kvp (IndexKeySchema index)" for index
    using that sel(2) h fits_hash_truthy [of kvp "IndexKeySchema index" pk]
    by (auto simp: use_index_def)
  have par: "truthy (js_get kvp (AttributeName pk))"
    if "sel = use_index index" "first_partial kvp xs = Inr (Some index)" for index xs
    using that sel(2) h first_partial_hash [of kvp xs index]
    by (auto simp: use_index_def)
  from sel(1) show ?thesis
    using sel(2)
    by (auto simp: select_schema_def select_local_def select_global_def f(1) no_selection_def
        split: if_splits option.splits sum.splits prod.splits
        dest: first_exact_fits intro: tab idx par)
qed

lemma query_never_misses_partition_key:
  assumes "newDynamoTable td ctor onGet = Inr t"
  shows "query_params t kvp cq bq \<noteq> Inl (MissingPartitionKey p)"
proof
  assume q: "query_params t kvp cq bq = Inl (MissingPartitionKey p)"
  have se: "select_schema t kvp \<noteq> Inl (MissingPartitionKey p)"
  proof -
    have "first_partial kvp xs \<noteq> Inl (MissingPartitionKey p)" for xs
      by (induction xs) (auto split: option.splits)
    then show ?thesis
      by (auto simp: select_schema_def select_local_def select_global_def
          split: if_splits option.splits sum.splits prod.splits)
  qed
  from q se obtain sel ks where s: "select_schema t kvp = Inr sel" "matchingKeySchema sel = Some ks"
    and r: "buildKeyConditionExpression ks kvp [] [] = Inl (MissingPartitionKey p)"
    by (auto simp: query_params_def split: sum.splits option.splits
        dest: buildFilterExpression_error)
  with key_condition_not_missing [of ks kvp "[]" "[]" p] selected_hash_truthy [OF assms s]
  show False by blast
qed

text \<open>
  Claim C7 says that \<^verbatim>\<open>buildKeyConditionExpression\<close> fails with MissingPartitionKey exactly
  when the filter set holds no present scalar for the partition key. On the code the test is
  \<^verbatim>\<open>if (!pkValue)\<close>, a truthiness test, which an array passes, while \<^verbatim>\<open>fitsParamsExactly\<close>
  excludes arrays: for the filter set \<^verbatim>\<open>{location: ['NY', 'LA']}\<close>, which \<^verbatim>\<open>query\<close> hands
  to the builder with the table's own schema, the call does not fail and the expression
  compares the partition key with the array.
\<close>

theorem list_partition_key_accepted_by_key_condition:
  "is_Array (js_get [(''location'', JArr [JStr ''NY'', JStr ''LA''])] ''location'')
   \<and> select_schema people [(''location'', JArr [JStr ''NY'', JStr ''LA''])]
       = Inr \<lparr> matchingKeySchema = Some people_schema, selIndexName = None \<rparr>
   \<and> buildKeyConditionExpression people_schema
         [(''location'', JArr [JStr ''NY'', JStr ''LA''])] [] []
       = Inr \<lparr> kexpression = ''#location = :location'',
               knames = [(''#location'', ''location'')],
               kvalues = [('':location'', JArr [JStr ''NY'', JStr ''LA''])] \<rparr>"
  by code_simp

section \<open>Range clauses\<close>

lemma between_loop_fold:
  "between_loop bq st
     = foldl (\<lambda>s e. addBetweenQueryToExpression (fst e) (snd e) (and_sep s)) st bq"
  by (induction bq arbitrary: st) auto

text \<open>
  The loop writes one clause per entry of the range query, in order; which clause it writes
  is decided by the truthiness of the two bounds.
\<close>

lemma between_clause_cases:
  "between_loop bq st
     = foldl (\<lambda>s e. addBetweenQueryToExpression (fst e) (snd e) (and_sep s)) st bq
   \<and> (\<not> truthy lo \<longrightarrow>
        expression (addBetweenQueryToExpression k [lo, hi] st)
          = expression st @ key_placeholder k @ '' <= '' @ dotless ('':'' @ k @ ''1'')
        \<and> vals (addBetweenQueryToExpression k [lo, hi] st)
          = obj_set (vals st) (dotless ('':'' @ k @ ''1'')) hi)
   \<and> (truthy lo \<and> \<not> truthy hi \<longrightarrow>
        expression (addBetweenQueryToExpression k [lo, hi] st)
          = expression st @ key_placeholder k @ '' >= '' @ dotless ('':'' @ k @ ''1'')
        \<and> vals (addBetweenQueryToExpression k [lo, hi] st)
          = obj_set (vals st) (dotless ('':'' @ k @ ''1'')) lo)
   \<and> (truthy lo \<and> truthy hi \<longrightarrow>
        expression (addBetweenQueryToExpression k [lo, hi] st)
          = expression st @ key_placeholder k @ '' BETWEEN '' @ dotless ('':'' @ k @ ''1'')
              @ '' AND '' @ dotless ('':'' @ k @ ''2'')
        \<and> vals (addBetweenQueryToExpression k [lo, hi] st)
          = obj_set (obj_set (vals st) (dotless ('':'' @ k @ ''1'')) lo)
              (dotless ('':'' @ k @ ''2'')) hi)"
  by (simp add: between_loop_fold addBetweenQueryToExpression_def between_clause_def
      between_bindings_def buildKeyPlaceholder_def js_nth_def set_all_def Let_def)

text \<open>
  Claim C8 says that a range with an absent low bound is written as \<^verbatim>\<open>attr <= high\<close>, one
  with an absent high bound as \<^verbatim>\<open>attr >= low\<close>, and one with both bounds present as a
  BETWEEN clause. On the code the tests for an absent bound are \<^verbatim>\<open>!values[0]\<close> and
  \<^verbatim>\<open>!values[1]\<close>, truthiness tests, which the number 0 passes as well: the range
  \<^verbatim>\<open>(0, 10)\<close> is sent as \<^verbatim>\<open><= 10\<close> and the range \<^verbatim>\<open>(-5, 0)\<close> as \<^verbatim>\<open>>= -5\<close>, each of
  which selects other items than the BETWEEN clause.
\<close>

theorem zero_range_bound_taken_for_absent:
  "scan_params people [(''firstName'', JStr ''Al'')] None (Some [(''n'', [JNum 0, JNum 10])])
     = Inr \<lparr> sTableName = ''people'',
             sExpressionAttributeNames = Some [(''#firstName0'', ''firstName''), (''#n0'', ''n'')],
             sExpressionAttributeValues = Some [('':firstName'', JStr ''Al''), ('':n1'', JNum 10)],
             sFilterExpression = Some ''#firstName0 = :firstName AND #n0 <= :n1'' \<rparr>
   \<and> scan_params people [(''firstName'', JStr ''Al'')] None (Some [(''n'', [JNum (- 5), JNum 0])])
     = Inr \<lparr> sTableName = ''people'',
             sExpressionAttributeNames = Some [(''#firstName0'', ''firstName''), (''#n0'', ''n'')],
             sExpressionAttributeValues = Some [('':firstName'', JStr ''Al''), ('':n1'', JNum (- 5))],
             sFilterExpression = Some ''#firstName0 = :firstName AND #n0 >= :n1'' \<rparr>"
  by code_simp

section \<open>Placeholders of one filter expression\<close>

text \<open>
  Claim C4 says that the placeholders of one expression-build call are unique for every
  filter set, contains query and range query. On the code a value placeholder is the
  sanitised path, with a numeral after it for IN and range clauses, and a name placeholder is
  the sanitised path and the segment's index, with no check for a clash. So a contains clause
  on the partition key rebinds the key condition's \<^verbatim>\<open>:location\<close>; the equality and the
  contains clause of one attribute share \<^verbatim>\<open>:x\<close>; the paths \<^verbatim>\<open>a.b\<close> and \<^verbatim>\<open>a_b\<close> share
  \<^verbatim>\<open>#a_b0\<close> for the segments \<^verbatim>\<open>a\<close> and \<^verbatim>\<open>a_b\<close>; and the first element of a list under
  \<^verbatim>\<open>x\<close> shares \<^verbatim>\<open>:x0\<close> with the scalar under \<^verbatim>\<open>x0\<close>. In each case the later binding
  replaces the earlier one, and the earlier clause is sent with the later clause's name or
  value.
\<close>

theorem placeholder_collisions:
  "query_params people [(''location'', JStr ''NY'')] (Some [(''location'', JStr ''N'')]) None
     = Inr (Some \<lparr> qTableName = ''people'', qIndexName = None,
              qExpressionAttributeNames = [(''#location'', ''location''), (''#location0'', ''location'')],
              qExpressionAttributeValues = [('':location'', JStr ''N'')],
              qKeyConditionExpression = ''#location = :location'',
              qFilterExpression = Some ''contains(#location0, :location)'' \<rparr>)
   \<and> scan_params people [(''x'', JNum 1)] (Some [(''x'', JStr ''a'')]) None
     = Inr \<lparr> sTableName = ''people'',
             sExpressionAttributeNames = Some [(''#x0'', ''x'')],
             sExpressionAttributeValues = Some [('':x'', JStr ''a'')],
             sFilterExpression = Some ''#x0 = :x AND contains(#x0, :x)'' \<rparr>
   \<and> value_writes people_schema [(''x'', JNum 1)] (Some [(''x'', JStr ''a'')]) None
     = [('':x'', JNum 1), ('':x'', JStr ''a'')]
   \<and> scan_params people [(''a.b'', JNum 1), (''a_b'', JNum 2)] None None
     = Inr \<lparr> sTableName = ''people'',
             sExpressionAttributeNames = Some [(''#a_b0'', ''a_b''), (''#a_b1'', ''b'')],
             sExpressionAttributeValues = Some [('':a_b'', JNum 2)],
             sFilterExpression = Some ''#a_b0.#a_b1 = :a_b AND #a_b0 = :a_b'' \<rparr>
   \<and> name_writes people_schema [(''a.b'', JNum 1), (''a_b'', JNum 2)] None None
     = [(''#a_b0'', ''a''), (''#a_b1'', ''b''), (''#a_b0'', ''a_b'')]
   \<and> value_writes people_schema [(''x'', JArr [JNum 1]), (''x0'', JNum 2)] None None
     = [('':x0'', JNum 1), ('':x0'', JNum 2)]"
  by code_simp

subsection \<open>Sanitised paths and decimal suffixes\<close>

lemma split_on_not_Nil: "split_on c s \<noteq> []"
  by (induction s) (auto split: list.splits)

lemma join_Cons_char: "join sep ((x # p) # ps) = x # join sep (p # ps)"
  by (cases ps) auto

lemma dotless_map: "dotless s = map sanitise s"
proof (induction s)
  case Nil
  show ?case by (simp add: dotless_def)
next
  case (Cons x xs)
  obtain q qs where q: "split_on (CHR ''.'') xs = q # qs"
    using split_on_not_Nil [of "CHR ''.''" xs] by (cases "split_on (CHR ''.'') xs") auto
  from Cons have ih: "join ''_'' (q # qs) = map sanitise xs"
    by (simp add: dotless_def q)
  show ?case
  proof (cases "x = CHR ''.''")
    case True
    then show ?thesis using ih by (simp add: dotless_def q sanitise_def)
  next
    case False
    then show ?thesis using ih by (simp add: dotless_def q sanitise_def join_Cons_char)
  qed
qed

lemma digit_char_is_digit: "d < 10 \<Longrightarrow> is_digit (digit_char d)"
  by (simp add: is_digit_def digit_char_def del: set_simps list.set)

lemma digit_char_inj: "d < 10 \<Longrightarrow> e < 10 \<Longrightarrow> digit_char d = digit_char e \<Longrightarrow> d = e"
proof -
  assume a: "d < 10" "e < 10" "digit_char d = digit_char e"
  have dist: "distinct ''0123456789''" by simp
  have "d < length ''0123456789''" "e < length ''0123456789''" using a by simp_all
  with dist a(3) show "d = e"
    unfolding digit_char_def by (simp only: nth_eq_iff_index_eq)
qed

lemma string_of_nat_digits: "\<forall>c \<in> set (string_of_nat n). is_digit c"
proof (induction n rule: string_of_nat.induct)
  case (1 n)
  show ?case
  proof (cases "n < 10")
    case True
    then show ?thesis by (subst string_of_nat.simps) (simp add: digit_char_is_digit)
  next
    case False
    with 1 show ?thesis
      by (subst string_of_nat.simps) (simp add: digit_char_is_digit)
  qed
qed

lemma string_of_nat_not_Nil: "string_of_nat n \<noteq> []"
  by (subst string_of_nat.simps) simp

lemma string_of_nat_inj: "string_of_nat n = string_of_nat m \<Longrightarrow> n = m"
proof (induction n arbitrary: m rule: string_of_nat.induct)
  case (1 n)
  show ?case
  proof (cases "n < 10")
    case n: True
    show ?thesis
    proof (cases "m < 10")
      case True
      with n "1.prems" show ?thesis
        by (simp add: string_of_nat.simps [of n] string_of_nat.simps [of m] digit_char_inj)
    next
      case False
      with n "1.prems" string_of_nat_not_Nil [of "m div 10"] show ?thesis
        by (simp add: string_of_nat.simps [of n] string_of_nat.simps [of m])
    qed
  next
    case n: False
    show ?thesis
    proof (cases "m < 10")
      case True
      with n "1.prems" string_of_nat_not_Nil [of "n div 10"] show ?thesis
        by (simp add: string_of_nat.simps [of n] string_of_nat.simps [of m])
    next
      case False
      with n "1.prems" have e: "string_of_nat (n div 10) = string_of_nat (m div 10)"
        and d: "digit_char (n mod 10) = digit_char (m mod 10)"
        by (simp_all add: string_of_nat.simps [of n] string_of_nat.simps [of m])
      from "1.IH" [OF n e] have q: "n div 10 = m div 10" .
      from d have r: "n mod 10 = m mod 10" by (simp add: digit_char_inj)
      from q r show ?thesis by (metis div_mult_mod_eq)
    qed
  qed
qed

lemma digit_suffix_unique:
  assumes "a = [] \<or> \<not> is_digit (last a)" and "b = [] \<or> \<not> is_digit (last b)"
    and "\<forall>c \<in> set s. is_digit c" and "\<forall>c \<in> set s'. is_digit c"
    and "a @ s = b @ s'"
  shows "a = b \<and> s = s'"
proof -
  from assms(5) obtain us where "(a = b @ us \<and> us @ s = s') \<or> (a @ us = b \<and> s = us @ s')"
    by (auto simp: append_eq_append_conv2)
  then show ?thesis
  proof
    assume h: "a = b @ us \<and> us @ s = s'"
    have "us = []"
    proof (rule ccontr)
      assume ne: "us \<noteq> []"
      then have "last a = last us" using h by simp
      moreover have "last us \<in> set s'" using h ne by auto
      ultimately show False using assms(1,4) h ne by auto
    qed
    with h show ?thesis by simp
  next
    assume h: "a @ us = b \<and> s = us @ s'"
    have "us = []"
    proof (rule ccontr)
      assume ne: "us \<noteq> []"
      then have "last b = last us" using h by auto
      moreover have "last us \<in> set s" using h ne by auto
      ultimately show False using assms(2,3) h ne by auto
    qed
    with h show ?thesis by simp
  qed
qed

lemma sanitise_digit: "is_digit c \<Longrightarrow> sanitise c = c"
  by (auto simp: is_digit_def sanitise_def)

lemma is_digit_sanitise: "is_digit (sanitise c) = is_digit c"
  by (auto simp: is_digit_def sanitise_def)

lemma dotless_digits: "\<forall>c \<in> set s. is_digit c \<Longrightarrow> dotless s = s"
  by (simp add: dotless_map sanitise_digit map_idI)

lemma dotless_append: "dotless (a @ b) = dotless a @ dotless b"
  by (simp add: dotless_map)

lemma dotless_inj: "CHR ''_'' \<notin> set a \<Longrightarrow> CHR ''_'' \<notin> set b \<Longrightarrow> dotless a = dotless b \<Longrightarrow> a = b"
proof (induction a arbitrary: b)
  case Nil
  then show ?case by (simp add: dotless_map)
next
  case (Cons x xs)
  then obtain y ys where b: "b = y # ys" by (cases b) (auto simp: dotless_map)
  with Cons.prems have "sanitise x = sanitise y" "dotless xs = dotless ys"
    by (simp_all add: dotless_map)
  moreover have "x \<noteq> CHR ''_''" "y \<noteq> CHR ''_''" using Cons.prems b by auto
  ultimately show ?case using Cons.IH [of ys] Cons.prems b
    by (auto simp: sanitise_def split: if_splits)
qed

lemma tidy_dotless: "tidy_path k \<Longrightarrow> dotless k = [] \<or> \<not> is_digit (last (dotless k))"
  by (auto simp: tidy_path_def dotless_map last_map is_digit_sanitise)

lemma placeholder_owner_unique:
  assumes "tidy_path k" "tidy_path k'"
    and "\<forall>c \<in> set s. is_digit c" and "\<forall>c \<in> set s'. is_digit c"
    and "dotless k @ s = dotless k' @ s'"
  shows "k = k' \<and> s = s'"
proof -
  have "dotless k = dotless k' \<and> s = s'"
    using digit_suffix_unique [OF tidy_dotless [OF assms(1)] tidy_dotless [OF assms(2)] assms(3,4,5)] .
  then show ?thesis using assms(1,2) by (auto simp: tidy_path_def dest: dotless_inj)
qed

subsection \<open>The assignments and the resulting maps\<close>

lemma unique_bindings_iff: "unique_bindings bs \<longleftrightarrow> single_valued (set bs)"
proof (induction bs)
  case Nil
  show ?case by simp
next
  case (Cons b bs)
  obtain k v where b: "b = (k, v)" by (cases b)
  show ?case
    unfolding b using Cons.IH
    by (auto simp: single_valued_def list_all_iff)
qed

lemma set_all_append: "set_all ps (a @ b) = set_all (set_all ps a) b"
  by (simp add: set_all_def)

lemma set_all_Nil: "set_all ps [] = ps"
  by (simp add: set_all_def)

lemma set_all_snoc: "set_all ps (bs @ [b]) = obj_set (set_all ps bs) (fst b) (snd b)"
  by (simp add: set_all_def)

lemma set_all_get:
  "single_valued (set bs) \<Longrightarrow> (k, v) \<in> set bs \<Longrightarrow> obj_get (set_all ps bs) k = Some v"
proof (induction bs rule: rev_induct)
  case Nil
  then show ?case by simp
next
  case (snoc b bs)
  have sv: "single_valued (set bs)"
    using snoc.prems(1) by (rule single_valued_subset [rotated]) auto
  show ?case
  proof (cases "k = fst b")
    case True
    have "(k, snd b) \<in> set (bs @ [b])" using True by (cases b) auto
    with snoc.prems have "snd b = v" by (auto dest: single_valuedD)
    with True show ?thesis by (simp add: set_all_snoc obj_get_obj_set)
  next
    case False
    with snoc.prems(2) have "(k, v) \<in> set bs" by auto
    with snoc.IH [OF sv] False show ?thesis by (simp add: set_all_snoc obj_get_obj_set)
  qed
qed

lemma and_sep_names [simp]: "names (and_sep st) = names st"
  and and_sep_vals [simp]: "vals (and_sep st) = vals st"
  by (simp_all add: and_sep_def)

lemma search_step:
  "search_loop ((key, v) # ts) st = Inr st' \<Longrightarrow>
     \<exists>st1. search_loop ts st1 = Inr st'
       \<and> names st1 = set_all (names st) (name_bindings key)
       \<and> vals st1 = set_all (vals st) (search_bindings key v)"
  by (cases v)
    (auto simp: addInQueryToExpression_def addSearchTermToExpression_def
      buildKeyPlaceholder_def search_bindings_def)

lemma search_loop_writes:
  "search_loop ts st = Inr st' \<Longrightarrow>
     names st' = set_all (names st) (concat (map (\<lambda>e. name_bindings (fst e)) ts))
   \<and> vals st' = set_all (vals st) (concat (map (\<lambda>e. search_bindings (fst e) (snd e)) ts))"
proof (induction ts arbitrary: st)
  case Nil
  then show ?case by (simp add: set_all_Nil)
next
  case (Cons e ts)
  obtain key v where e: "e = (key, v)" by (cases e)
  from Cons.prems obtain st1 where s: "search_loop ts st1 = Inr st'"
    and n: "names st1 = set_all (names st) (name_bindings key)"
    and v: "vals st1 = set_all (vals st) (search_bindings key v)"
    unfolding e by (blast dest: search_step)
  from Cons.IH [OF s] show ?case by (simp add: e n v set_all_append)
qed

lemma contains_loop_writes:
  "names (contains_loop cq st) = set_all (names st) (concat (map (\<lambda>e. name_bindings (fst e)) cq))
   \<and> vals (contains_loop cq st) = set_all (vals st) (concat (map (\<lambda>e. term_bindings (fst e) (snd e)) cq))"
proof (induction cq arbitrary: st)
  case Nil
  show ?case by (simp add: set_all_Nil)
next
  case (Cons e cq)
  obtain key v where e: "e = (key, v)" by (cases e)
  show ?case
    by (simp add: e Cons.IH set_all_append addContainsQueryToExpression_def buildKeyPlaceholder_def)
qed

lemma between_loop_writes:
  "names (between_loop bq st) = set_all (names st) (concat (map (\<lambda>e. name_bindings (fst e)) bq))
   \<and> vals (between_loop bq st) = set_all (vals st) (concat (map (\<lambda>e. between_bindings (fst e) (snd e)) bq))"
proof (induction bq arbitrary: st)
  case Nil
  show ?case by (simp add: set_all_Nil)
next
  case (Cons e bq)
  obtain key v where e: "e = (key, v)" by (cases e)
  show ?case
    by (simp add: e Cons.IH set_all_append addBetweenQueryToExpression_def buildKeyPlaceholder_def)
qed

lemma build_writes:
  assumes "buildFilterExpression ks kvp cq bq nm0 vs0 = Inr (e, nm, vs)"
  shows "nm = set_all nm0 (name_writes ks kvp cq bq) \<and> vs = set_all vs0 (value_writes ks kvp cq bq)"
proof -
  let ?st0 = "\<lparr> expression = [], names = nm0, vals = vs0 \<rparr>"
  from assms obtain st1 where s1: "search_loop (searchTerms ks kvp) ?st0 = Inr st1"
    by (auto simp: buildFilterExpression_def split: sum.splits)
  define st2 where "st2 = contains_loop (entries cq) st1"
  define st3 where "st3 = between_loop (entries bq) st2"
  have c: "(case cq of None \<Rightarrow> st1 | Some c \<Rightarrow> contains_loop c st1) = st2"
    by (simp add: st2_def entries_def split: option.splits)
  have b: "(case bq of None \<Rightarrow> st2 | Some c \<Rightarrow> between_loop c st2) = st3"
    by (simp add: st3_def entries_def split: option.splits)
  from assms have r: "nm = names st3" "vs = vals st3"
    by (simp_all add: buildFilterExpression_def s1 c b Let_def)
  from search_loop_writes [OF s1] contains_loop_writes [of "entries cq" st1]
    between_loop_writes [of "entries bq" st2]
  show ?thesis
    by (simp add: r st3_def st2_def name_writes_def value_writes_def set_all_append)
qed

subsection \<open>Uniqueness\<close>

lemma blocks_single_valued:
  fixes es :: "(string \<times> (string \<times> 'v) list) list"
  assumes d: "distinct (map fst es)"
    and sv: "\<And>K b. (K, b) \<in> set es \<Longrightarrow> single_valued (set b)"
    and own: "\<And>K b p v. (K, b) \<in> set es \<Longrightarrow> (p, v) \<in> set b \<Longrightarrow>
                \<exists>s. (\<forall>c \<in> set s. is_digit c) \<and> p = c0 # dotless K @ s"
    and tidy: "\<And>K b. (K, b) \<in> set es \<Longrightarrow> tidy_path K"
  shows "single_valued (set (concat (map snd es)))"
proof (rule single_valuedI)
  fix p v v'
  assume "(p, v) \<in> set (concat (map snd es))" and "(p, v') \<in> set (concat (map snd es))"
  then obtain K b K' b' where m: "(K, b) \<in> set es" "(p, v) \<in> set b"
    and m': "(K', b') \<in> set es" "(p, v') \<in> set b'"
    by auto
  from own [OF m] obtain s where s: "\<forall>c \<in> set s. is_digit c" "p = c0 # dotless K @ s" by blast
  from own [OF m'] obtain s' where s': "\<forall>c \<in> set s'. is_digit c" "p = c0 # dotless K' @ s'" by blast
  from s(2) s'(2) have "dotless K @ s = dotless K' @ s'" by simp
  with placeholder_owner_unique [OF tidy [OF m(1)] tidy [OF m'(1)] s(1) s'(1)]
  have "K = K'" by simp
  with d m(1) m'(1) have "b = b'" by (auto dest: eq_key_imp_eq_value)
  with sv [OF m(1)] m(2) m'(2) show "v = v'" by (auto dest: single_valuedD)
qed

lemma dotless_colon: "dotless (CHR '':'' # k @ s) = CHR '':'' # dotless k @ dotless s"
  by (simp add: dotless_map sanitise_def)

lemma enumerate_map_mem:
  "(p, v) \<in> (\<lambda>x. case x of (i, x) \<Rightarrow> (f i, x)) ` set (enumerate 0 xs) \<longleftrightarrow>
     (\<exists>i < length xs. p = f i \<and> v = xs ! i)"
proof
  assume "(p, v) \<in> (\<lambda>x. case x of (i, x) \<Rightarrow> (f i, x)) ` set (enumerate 0 xs)"
  then obtain i x where "(i, x) \<in> set (enumerate 0 xs)" and "p = f i" and "v = x"
    by auto
  then show "\<exists>i < length xs. p = f i \<and> v = xs ! i"
    by (auto simp: in_set_enumerate_eq)
next
  assume "\<exists>i < length xs. p = f i \<and> v = xs ! i"
  then obtain i where i: "i < length xs" "p = f i" "v = xs ! i" by blast
  then have "(i, xs ! i) \<in> set (enumerate 0 xs)" by (simp add: in_set_enumerate_eq)
  then show "(p, v) \<in> (\<lambda>x. case x of (i, x) \<Rightarrow> (f i, x)) ` set (enumerate 0 xs)"
    by (rule rev_image_eqI) (simp add: i)
qed

lemma name_bindings_mem:
  "(p, seg) \<in> set (name_bindings k) \<longleftrightarrow>
     (\<exists>i < length (split_on (CHR ''.'') k).
        p = CHR ''#'' # dotless k @ string_of_nat i \<and> seg = split_on (CHR ''.'') k ! i)"
  by (simp add: name_bindings_def Let_def enumerate_map_mem) (simp add: dotless_def)

lemma name_block:
  "single_valued (set (name_bindings k))"
  "(p, seg) \<in> set (name_bindings k) \<Longrightarrow>
     \<exists>s. (\<forall>c \<in> set s. is_digit c) \<and> p = CHR ''#'' # dotless k @ s"
  by (auto simp: name_bindings_mem single_valued_def string_of_nat_digits
      dest: string_of_nat_inj)

lemma in_bindings_mem:
  "(p, v) \<in> set (in_bindings k xs) \<longleftrightarrow>
     (\<exists>i < length xs. p = CHR '':'' # dotless k @ string_of_nat i \<and> v = xs ! i)"
  by (simp add: in_bindings_def enumerate_map_mem dotless_colon dotless_digits
      string_of_nat_digits)

lemma in_block:
  "single_valued (set (in_bindings k xs))"
  "(p, v) \<in> set (in_bindings k xs) \<Longrightarrow>
     \<exists>s. (\<forall>c \<in> set s. is_digit c) \<and> p = CHR '':'' # dotless k @ s"
  by (auto simp: in_bindings_mem single_valued_def string_of_nat_digits
      dest: string_of_nat_inj)

lemma term_block:
  "single_valued (set (term_bindings k v))"
  "(p, w) \<in> set (term_bindings k v) \<Longrightarrow>
     \<exists>s. (\<forall>c \<in> set s. is_digit c) \<and> p = CHR '':'' # dotless k @ s"
  using dotless_colon [of k "[]"]
  by (auto simp: term_bindings_def single_valued_def dotless_map)

lemma between_block:
  "single_valued (set (between_bindings k vs))"
  "(p, w) \<in> set (between_bindings k vs) \<Longrightarrow>
     \<exists>s. (\<forall>c \<in> set s. is_digit c) \<and> p = CHR '':'' # dotless k @ s"
proof -
  have one: "dotless (CHR '':'' # k @ ''1'') = CHR '':'' # dotless k @ ''1''"
    and two: "dotless (CHR '':'' # k @ ''2'') = CHR '':'' # dotless k @ ''2''"
    by (simp_all add: dotless_map sanitise_def)
  show "single_valued (set (between_bindings k vs))"
    by (auto simp: between_bindings_def Let_def single_valued_def one two)
  assume "(p, w) \<in> set (between_bindings k vs)"
  then have "p = CHR '':'' # dotless k @ ''1'' \<or> p = CHR '':'' # dotless k @ ''2''"
    by (auto simp: between_bindings_def Let_def one two split: if_splits)
  then show "\<exists>s. (\<forall>c \<in> set s. is_digit c) \<and> p = CHR '':'' # dotless k @ s"
  proof
    assume "p = CHR '':'' # dotless k @ ''1''"
    then have "(\<forall>c \<in> set ''1''. is_digit c) \<and> p = CHR '':'' # dotless k @ ''1''"
      by (simp add: is_digit_def)
    then show ?thesis by blast
  next
    assume "p = CHR '':'' # dotless k @ ''2''"
    then have "(\<forall>c \<in> set ''2''. is_digit c) \<and> p = CHR '':'' # dotless k @ ''2''"
      by (simp add: is_digit_def)
    then show ?thesis by blast
  qed
qed

lemma search_block:
  "single_valued (set (search_bindings k v))"
  "(p, w) \<in> set (search_bindings k v) \<Longrightarrow>
     \<exists>s. (\<forall>c \<in> set s. is_digit c) \<and> p = CHR '':'' # dotless k @ s"
  by (cases v; simp add: search_bindings_def in_block term_block)+

lemma name_writes_unique:
  assumes "distinct (filter_paths ks kvp cq bq)"
    and "\<forall>k \<in> set (filter_paths ks kvp cq bq). tidy_path k"
  shows "single_valued (set (name_writes ks kvp cq bq))"
proof -
  define es where "es = map (\<lambda>k. (k, name_bindings k)) (filter_paths ks kvp cq bq)"
  have w: "name_writes ks kvp cq bq = concat (map snd es)"
    by (simp add: es_def name_writes_def filter_paths_def comp_def)
  have d: "distinct (map fst es)" using assms(1) by (simp add: es_def comp_def)
  have "single_valued (set (concat (map snd es)))"
  proof (rule blocks_single_valued [OF d, where ?c0.0 = "CHR ''#''"])
    fix K b assume "(K, b) \<in> set es"
    then show "single_valued (set b)" by (auto simp: es_def name_block)
  next
    fix K b p v assume "(K, b) \<in> set es" "(p, v) \<in> set b"
    then show "\<exists>s. (\<forall>c \<in> set s. is_digit c) \<and> p = CHR ''#'' # dotless K @ s"
      by (auto simp: es_def dest: name_block(2))
  next
    fix K b assume "(K, b) \<in> set es"
    then show "tidy_path K" using assms(2) by (auto simp: es_def)
  qed
  with w show ?thesis by simp
qed

lemma value_writes_unique:
  assumes "distinct (filter_paths ks kvp cq bq)"
    and "\<forall>k \<in> set (filter_paths ks kvp cq bq). tidy_path k"
  shows "single_valued (set (value_writes ks kvp cq bq))"
proof -
  define es where "es =
     map (\<lambda>e. (fst e, search_bindings (fst e) (snd e))) (searchTerms ks kvp)
     @ map (\<lambda>e. (fst e, term_bindings (fst e) (snd e))) (entries cq)
     @ map (\<lambda>e. (fst e, between_bindings (fst e) (snd e))) (entries bq)"
  have w: "value_writes ks kvp cq bq = concat (map snd es)"
    by (simp add: es_def value_writes_def comp_def)
  have f: "map fst es = filter_paths ks kvp cq bq"
    by (simp add: es_def filter_paths_def comp_def)
  have d: "distinct (map fst es)" using assms(1) by (simp only: f)
  have blocks: "\<And>K b. (K, b) \<in> set es \<Longrightarrow>
      (\<exists>v. b = search_bindings K v) \<or> (\<exists>v. b = term_bindings K v) \<or> (\<exists>vs. b = between_bindings K vs)"
    by (auto simp: es_def)
  have "single_valued (set (concat (map snd es)))"
  proof (rule blocks_single_valued [OF d, where ?c0.0 = "CHR '':''"])
    fix K b assume "(K, b) \<in> set es"
    from blocks [OF this] show "single_valued (set b)"
      by (auto simp: search_block term_block between_block)
  next
    fix K b p v assume "(K, b) \<in> set es" and p: "(p, v) \<in> set b"
    from blocks [OF this(1)] p
    show "\<exists>s. (\<forall>c \<in> set s. is_digit c) \<and> p = CHR '':'' # dotless K @ s"
      by (auto dest: search_block(2) term_block(2) between_block(2))
  next
    fix K b assume "(K, b) \<in> set es"
    then have "K \<in> set (map fst es)" by force
    then show "tidy_path K" using assms(2) by (simp only: f)
  qed
  with w show ?thesis by simp
qed

text \<open>
  Where the scheme has no clash: on attribute paths that are pairwise distinct, contain no
  underscore and do not end in a decimal digit, every placeholder of one
  \<^verbatim>\<open>buildFilterExpression\<close> call gets one binding, and the resulting maps hold all of them.
  The condition is sufficient, not necessary, and says nothing about bindings that are in the
  maps before the call.
\<close>

lemma placeholders_unique_on_tidy_distinct_paths:
  assumes "distinct (filter_paths ks kvp cq bq)"
    and "\<forall>k \<in> set (filter_paths ks kvp cq bq). tidy_path k"
    and "buildFilterExpression ks kvp cq bq nm0 vs0 = Inr (e, nm, vs)"
  shows "unique_bindings (name_writes ks kvp cq bq)
       \<and> unique_bindings (value_writes ks kvp cq bq)
       \<and> (\<forall>(p, seg) \<in> set (name_writes ks kvp cq bq). obj_get nm p = Some seg)
       \<and> (\<forall>(p, v) \<in> set (value_writes ks kvp cq bq). obj_get vs p = Some v)"
proof -
  note n = name_writes_unique [OF assms(1,2)]
  note v = value_writes_unique [OF assms(1,2)]
  note b = build_writes [OF assms(3)]
  show ?thesis
    using n v b by (auto simp: unique_bindings_iff intro: set_all_get)
qed

end
